theory Spec2Isabelle
  imports Main "HOL-Library.AList"
begin

section \<open>Values of the session tree\<close>

text \<open>
  The session payload is a tree of JavaScript values. The model keeps the values the
  tracker distinguishes: \<open>null\<close>, booleans, numbers (integers), strings, the
  \<open>terminate\<close> closure, and objects. An object is the list of its own properties in
  insertion order. A slot that holds an object holds either the raw object
  (\<open>JObj None kvs\<close>) or the Proxy that \<open>proxify\<close> built around it
  (\<open>JObj (Some path) kvs\<close>, with the path captured by \<open>createHandler(path)\<close>).
  Every Proxy is registered in the private \<open>#preproxy\<close> WeakMap when it is made, so
  \<open>#preproxy.has(v)\<close> holds exactly when \<open>v\<close> is a wrapped slot and
  \<open>#preproxy.get(v)\<close> is the same object without its wrapper.

  The model covers trees: a value handed to the tracker is plain data, not a node that
  is already tracked somewhere else. Inherited properties, the own properties of strings
  and functions, arrays, and the numeric-key ordering of JavaScript objects are not
  modelled.
\<close>

type_synonym path = "string list"

datatype jsval =
    JNull
  | JBool bool
  | JNum int
  | JStr string
  | JFun
  | JObj "path option" "(string \<times> jsval) list"

type_synonym members = "(string \<times> jsval) list"

datatype error =
    TypeError
  | Error string

text \<open>The \<open>typeof\<close> operator; \<open>typeof null\<close> is \<open>'object'\<close>.\<close>

fun typeof :: "jsval \<Rightarrow> string" where
  "typeof JNull = ''object''"
| "typeof (JBool b) = ''boolean''"
| "typeof (JNum n) = ''number''"
| "typeof (JStr s) = ''string''"
| "typeof JFun = ''function''"
| "typeof (JObj w kvs) = ''object''"

section \<open>DeepProxy\<close>

text \<open>
  \<open>proxify(obj, path)\<close>: wrap every member whose \<open>typeof\<close> is \<open>'object'\<close>, in
  property order, then wrap \<open>obj\<close> itself. \<open>new Proxy(obj, ...)\<close> throws a TypeError
  when \<open>obj\<close> is not an object, which is what happens for \<open>null\<close>
  (\<open>for (key in null)\<close> runs zero times and does not throw). The callers pass only
  values whose \<open>typeof\<close> is \<open>'object'\<close>, so the last equation is reached by
  \<open>null\<close> alone.
\<close>

fun proxify :: "jsval \<Rightarrow> path \<Rightarrow> error + jsval"
  and proxify_each :: "members \<Rightarrow> path \<Rightarrow> error + members" where
  "proxify (JObj w kvs) path =
     (case proxify_each kvs path of
        Inl e \<Rightarrow> Inl e
      | Inr kvs' \<Rightarrow> Inr (JObj (Some path) kvs'))"
| "proxify v path = Inl TypeError"
| "proxify_each [] path = Inr []"
| "proxify_each ((key, v) # rest) path =
     (if typeof v = ''object'' then
        (case proxify v (path @ [key]) of
           Inl e \<Rightarrow> Inl e
         | Inr v' \<Rightarrow>
            (case proxify_each rest path of
               Inl e \<Rightarrow> Inl e
             | Inr rest' \<Rightarrow> Inr ((key, v') # rest')))
      else
        (case proxify_each rest path of
           Inl e \<Rightarrow> Inl e
         | Inr rest' \<Rightarrow> Inr ((key, v) # rest')))"

text \<open>
  \<open>unproxy(obj, key)\<close>, as a function of the slot value \<open>obj[key]\<close>: the result
  is the new slot value and the error thrown, if any. A wrapped slot is replaced by its
  raw object; then every member whose \<open>typeof\<close> is \<open>'object'\<close> is visited in
  \<open>Object.keys\<close> order. \<open>Object.keys(null)\<close> throws a TypeError; the members
  unwrapped before the throw stay unwrapped, since the source assigns in place.
  \<open>Object.keys\<close> of a number, a boolean or a function has nothing to visit, and the
  members of a string are strings.
\<close>

fun unproxy :: "jsval \<Rightarrow> jsval \<times> error option"
  and unproxy_each :: "members \<Rightarrow> members \<times> error option" where
  "unproxy (JObj w kvs) =
     (case unproxy_each kvs of (kvs', e) \<Rightarrow> (JObj None kvs', e))"
| "unproxy JNull = (JNull, Some TypeError)"
| "unproxy v = (v, None)"
| "unproxy_each [] = ([], None)"
| "unproxy_each ((k, v) # rest) =
     (if typeof v = ''object'' then
        (case unproxy v of
           (v', Some e) \<Rightarrow> ((k, v') # rest, Some e)
         | (v', None) \<Rightarrow>
            (case unproxy_each rest of (rest', e) \<Rightarrow> ((k, v') # rest', e)))
      else
        (case unproxy_each rest of (rest', e) \<Rightarrow> ((k, v) # rest', e)))"

text \<open>
  What a trap reports to the code that called it: it threw, it finished without telling
  the handler, or it called the handler of the DeepProxy with a path. The handler reads
  the whole root (\<open>self.#data\<close>), which the trap has already changed in place, so the
  model rebuilds the root first and runs the handler on it afterwards.
\<close>

datatype signal = Threw error | Silent | Notify path

text \<open>
  \<open>createHandler(path).set\<close> on the raw object \<open>target\<close>: wrap the value when
  its \<open>typeof\<close> is \<open>'object'\<close>, store it, then call the handler with
  \<open>[...path, key]\<close>. (SessionObj gives both handlers, so the tests
  \<open>self._handler.set\<close> and \<open>self._handler.deleteProperty\<close> hold.)
\<close>

definition createHandler_set :: "path \<Rightarrow> members \<Rightarrow> string \<Rightarrow> jsval \<Rightarrow> members \<times> signal" where
  "createHandler_set path target key value =
     (case (if typeof value = ''object'' then proxify value (path @ [key]) else Inr value) of
        Inl e \<Rightarrow> (target, Threw e)
      | Inr value' \<Rightarrow> (AList.update key value' target, Notify (path @ [key])))"

text \<open>
  \<open>createHandler(path).deleteProperty\<close>: when the key is in the target, unwrap its
  subtree, read \<open>key in target\<close> again into \<open>deleted\<close>, and call the handler when
  \<open>deleted\<close> holds. The trap has no \<open>delete target[key]\<close>. A trap that returns
  \<open>false\<close> makes the \<open>delete\<close> expression of strict code (a module) throw a
  TypeError.
\<close>

definition createHandler_deleteProperty :: "path \<Rightarrow> members \<Rightarrow> string \<Rightarrow> members \<times> signal" where
  "createHandler_deleteProperty path target key =
     (case map_of target key of
        Some v \<Rightarrow>
          (case unproxy v of
             (v', Some e) \<Rightarrow> (AList.update key v' target, Threw e)
           | (v', None) \<Rightarrow>
               (let target' = AList.update key v' target;
                    deleted = (map_of target' key \<noteq> None)
                in if deleted then (target', Notify (path @ [key]))
                   else (target', Threw TypeError)))
      | None \<Rightarrow> (target, Threw TypeError))"

text \<open>
  An assignment \<open>handle.k1. ... .kn.key = value\<close> in strict code, on the object with
  wrapper \<open>w\<close> and members \<open>kvs\<close>: the reads go through to the targets; the
  assignment runs the set trap when the last object is wrapped and is a plain store when
  it is raw. Assigning to a property of \<open>undefined\<close>, \<open>null\<close> or a primitive
  throws a TypeError; assigning to a property of the \<open>terminate\<close> function changes
  nothing in the tree.
\<close>

fun obj_set :: "path option \<Rightarrow> members \<Rightarrow> path \<Rightarrow> string \<Rightarrow> jsval \<Rightarrow> members \<times> signal" where
  "obj_set w kvs [] key value =
     (case w of
        Some path \<Rightarrow> createHandler_set path kvs key value
      | None \<Rightarrow> (AList.update key value kvs, Silent))"
| "obj_set w kvs (k # ks) key value =
     (case map_of kvs k of
        Some (JObj w' kvs') \<Rightarrow>
          (case obj_set w' kvs' ks key value of
             (kvs'', sg) \<Rightarrow> (AList.update k (JObj w' kvs'') kvs, sg))
      | Some JFun \<Rightarrow> (kvs, if ks = [] then Silent else Threw TypeError)
      | _ \<Rightarrow> (kvs, Threw TypeError))"

text \<open>
  \<open>delete handle.k1. ... .kn.key\<close> in strict code: the deleteProperty trap when the
  last object is wrapped, a real removal when it is raw. \<open>delete\<close> on a property of
  a primitive or of the function removes nothing and does not throw.
\<close>

fun obj_delete :: "path option \<Rightarrow> members \<Rightarrow> path \<Rightarrow> string \<Rightarrow> members \<times> signal" where
  "obj_delete w kvs [] key =
     (case w of
        Some path \<Rightarrow> createHandler_deleteProperty path kvs key
      | None \<Rightarrow> (AList.delete key kvs, Silent))"
| "obj_delete w kvs (k # ks) key =
     (case map_of kvs k of
        Some (JObj w' kvs') \<Rightarrow>
          (case obj_delete w' kvs' ks key of
             (kvs'', sg) \<Rightarrow> (AList.update k (JObj w' kvs'') kvs, sg))
      | Some JNull \<Rightarrow> (kvs, Threw TypeError)
      | None \<Rightarrow> (kvs, Threw TypeError)
      | Some v \<Rightarrow> (kvs, if ks = [] then Silent else Threw TypeError))"

section \<open>JSON\<close>

text \<open>
  A serialized payload is represented by the JSON document it denotes, so that
  \<open>JSON.stringify\<close> returns and \<open>JSON.parse\<close> takes a value of type \<open>json\<close>.
  \<open>JSON.stringify\<close> reads through a Proxy to its target and leaves out every member
  whose value is a function. \<open>JSON.parse\<close> builds raw objects; a key that occurs twice
  keeps its first position and its last value.
\<close>

datatype json =
    JsNull
  | JsBool bool
  | JsNum int
  | JsStr string
  | JsObj "(string \<times> json) list"

fun stringify_value :: "jsval \<Rightarrow> json option"
  and stringify_members :: "members \<Rightarrow> (string \<times> json) list" where
  "stringify_value JNull = Some JsNull"
| "stringify_value (JBool b) = Some (JsBool b)"
| "stringify_value (JNum n) = Some (JsNum n)"
| "stringify_value (JStr s) = Some (JsStr s)"
| "stringify_value JFun = None"
| "stringify_value (JObj w kvs) = Some (JsObj (stringify_members kvs))"
| "stringify_members [] = []"
| "stringify_members ((k, v) # rest) =
     (case stringify_value v of
        None \<Rightarrow> stringify_members rest
      | Some j \<Rightarrow> (k, j) # stringify_members rest)"

definition JSON_stringify :: "members \<Rightarrow> json" where
  "JSON_stringify root = JsObj (stringify_members root)"

fun JSON_parse :: "json \<Rightarrow> jsval"
  and parse_members :: "(string \<times> json) list \<Rightarrow> members \<Rightarrow> members" where
  "JSON_parse JsNull = JNull"
| "JSON_parse (JsBool b) = JBool b"
| "JSON_parse (JsNum n) = JNum n"
| "JSON_parse (JsStr s) = JStr s"
| "JSON_parse (JsObj kvs) = JObj None (parse_members kvs [])"
| "parse_members [] acc = acc"
| "parse_members ((k, j) # rest) acc = parse_members rest (AList.update k (JSON_parse j) acc)"

section \<open>SessionObj\<close>

text \<open>\<open>reservedProp(rootProp)\<close>: the loop over \<open>['originIP', 'terminate']\<close>.\<close>

definition reservedProps :: "string list" where
  "reservedProps = [''originIP'', ''terminate'']"

fun reservedProp_loop :: "string \<Rightarrow> string list \<Rightarrow> bool" where
  "reservedProp_loop rootProp [] = False"
| "reservedProp_loop rootProp (prop # props) =
     (if rootProp = prop then True else reservedProp_loop rootProp props)"

definition reservedProp :: "string \<Rightarrow> bool" where
  "reservedProp rootProp = reservedProp_loop rootProp reservedProps"

text \<open>
  The two handlers that SessionObj gives to its DeepProxy. \<open>key\<close> is the path array
  the trap passes, \<open>root\<close> is \<open>self.#data\<close> as it is when the handler runs, and
  \<open>issueToken\<close> is the bound callback, acting on a state \<open>'w\<close>. \<open>key[0]\<close> of an
  empty array is \<open>undefined\<close>, which is not reserved. (The \<open>console.log\<close> of the
  deleteProperty handler is left out.)
\<close>

definition SessionObj_set :: "(json \<Rightarrow> 'w \<Rightarrow> 'w) \<Rightarrow> members \<Rightarrow> path \<Rightarrow> 'w \<Rightarrow> error option \<times> 'w" where
  "SessionObj_set issueToken root key w =
     (case key of
        k0 # _ \<Rightarrow>
          (if reservedProp k0 then
             (Some (Error (''client-session: '' @ k0 @
                '' is a reserved property and cannot be set.'')), w)
           else (None, issueToken (JSON_stringify root) w))
      | [] \<Rightarrow> (None, issueToken (JSON_stringify root) w))"

definition SessionObj_deleteProperty :: "(json \<Rightarrow> 'w \<Rightarrow> 'w) \<Rightarrow> members \<Rightarrow> path \<Rightarrow> 'w \<Rightarrow> error option \<times> 'w" where
  "SessionObj_deleteProperty issueToken root key w =
     (case key of
        k0 # _ \<Rightarrow>
          (if reservedProp k0 then
             (Some (Error (''client-sesion: '' @ k0 @
                '' is a reserved property and cannot be deleted.'')), w)
           else (None, issueToken (JSON_stringify root) w))
      | [] \<Rightarrow> (None, issueToken (JSON_stringify root) w))"

text \<open>
  \<open>new DeepProxy(target, handler)\<close> returns \<open>proxify(target, [])\<close>: the members of
  the target are wrapped and the handle is the Proxy of the target with the path
  \<open>[]\<close>. A session state is the list of members of that root.
\<close>

definition DeepProxy_new :: "members \<Rightarrow> error + members" where
  "DeepProxy_new target = proxify_each target []"

text \<open>
  The constructor of SessionObj. A previous payload is adopted and gets the
  \<open>terminate\<close> closure; assigning \<open>terminate\<close> on \<open>null\<close> or on a primitive
  throws a TypeError (class bodies are strict code). Without a payload the root starts
  empty and gets \<open>originIP\<close> and \<open>terminate\<close>. The payload is a result of
  \<open>JSON.parse\<close>, so it is never a function.
\<close>

definition SessionObj_new :: "jsval option \<Rightarrow> string \<Rightarrow> error + members" where
  "SessionObj_new prevPayload ip_addr =
     (case prevPayload of
        Some (JObj w kvs) \<Rightarrow> DeepProxy_new (AList.update ''terminate'' JFun kvs)
      | Some _ \<Rightarrow> Inl TypeError
      | None \<Rightarrow>
          DeepProxy_new
            (AList.update ''terminate'' JFun (AList.update ''originIP'' (JStr ip_addr) [])))"

text \<open>
  A set and a delete through the session handle: the trap of the DeepProxy first, then,
  when the trap notifies, the handler of SessionObj on the root as the trap left it.
\<close>

definition session_set ::
    "(json \<Rightarrow> 'w \<Rightarrow> 'w) \<Rightarrow> path \<Rightarrow> string \<Rightarrow> jsval \<Rightarrow> members \<Rightarrow> 'w \<Rightarrow> error option \<times> members \<times> 'w" where
  "session_set issueToken ks key value root w =
     (case obj_set (Some []) root ks key value of
        (root', Threw e) \<Rightarrow> (Some e, root', w)
      | (root', Silent) \<Rightarrow> (None, root', w)
      | (root', Notify p) \<Rightarrow>
          (case SessionObj_set issueToken root' p w of (e, w') \<Rightarrow> (e, root', w')))"

definition session_delete ::
    "(json \<Rightarrow> 'w \<Rightarrow> 'w) \<Rightarrow> path \<Rightarrow> string \<Rightarrow> members \<Rightarrow> 'w \<Rightarrow> error option \<times> members \<times> 'w" where
  "session_delete issueToken ks key root w =
     (case obj_delete (Some []) root ks key of
        (root', Threw e) \<Rightarrow> (Some e, root', w)
      | (root', Silent) \<Rightarrow> (None, root', w)
      | (root', Notify p) \<Rightarrow>
          (case SessionObj_deleteProperty issueToken root' p w of (e, w') \<Rightarrow> (e, root', w')))"

section \<open>ClientSession\<close>

text \<open>
  The options of the constructor (\<open>restrictIPAccess\<close> is \<open>None\<close> when the option
  is absent), what the middleware reads of the request, and what the code does to the
  response, as the list of the calls it makes on \<open>res\<close>. \<open>next_calls\<close> counts the
  calls of \<open>next()\<close>. The jsonwebtoken library is a parameter: \<open>sign\<close> and
  \<open>verify\<close>, the latter giving the error or the verified payload
  \<open>{exp, data}\<close>. \<open>Date.now()\<close> is the parameter \<open>now\<close>, in milliseconds.
\<close>

record options =
  secret :: string
  expiresIn :: int
  restrictIPAccess :: "bool option"

record request =
  accessToken :: "string option"
  ip :: string

record cookie_options =
  expires :: int
  httpOnly :: bool

datatype res_call =
    Cookie string string cookie_options
  | ClearCookie string
  | SendStatus nat

record world =
  clientSession :: "members option"
  res :: "res_call list"
  next_calls :: nat

record jwt_payload =
  jwt_exp :: int
  jwt_data :: json

datatype token_error = Malformed | InvalidSignature | Expired

record jwt =
  sign :: "jwt_payload \<Rightarrow> string \<Rightarrow> string"
  verify :: "string \<Rightarrow> string \<Rightarrow> token_error + jwt_payload"

definition updateCookie :: "options \<Rightarrow> int \<Rightarrow> string \<Rightarrow> res_call list \<Rightarrow> res_call list" where
  "updateCookie opts now token rs =
     rs @ [Cookie ''accessToken'' token \<lparr>expires = now + expiresIn opts, httpOnly = True\<rparr>]"

text \<open>The issuance callback that \<open>createSessionObj\<close> binds.\<close>

definition issueToken :: "jwt \<Rightarrow> options \<Rightarrow> int \<Rightarrow> json \<Rightarrow> res_call list \<Rightarrow> res_call list" where
  "issueToken J opts now tokenPayload rs =
     updateCookie opts now
       (sign J \<lparr>jwt_exp = now div 1000 + expiresIn opts, jwt_data = tokenPayload\<rparr> (secret opts))
       rs"

definition createSessionObj :: "jsval option \<Rightarrow> request \<Rightarrow> error + members" where
  "createSessionObj payload req = SessionObj_new payload (ip req)"

text \<open>The termination callback that \<open>createSessionObj\<close> binds.\<close>

definition terminateCallback :: "request \<Rightarrow> world \<Rightarrow> error option \<times> world" where
  "terminateCallback req w =
     (let w1 = w\<lparr>res := res w @ [ClearCookie ''accessToken'']\<rparr>
      in case createSessionObj None req of
           Inl e \<Rightarrow> (Some e, w1)
         | Inr s \<Rightarrow> (None, w1\<lparr>clientSession := Some s\<rparr>))"

text \<open>
  \<open>tokenData.originIP\<close>: a TypeError on \<open>null\<close>, \<open>undefined\<close> (\<open>None\<close>) on
  a primitive or when the key is missing.
\<close>

fun get_originIP :: "jsval \<Rightarrow> error + jsval option" where
  "get_originIP JNull = Inl TypeError"
| "get_originIP (JObj w kvs) = Inr (map_of kvs ''originIP'')"
| "get_originIP v = Inr None"

definition middleware :: "jwt \<Rightarrow> options \<Rightarrow> request \<Rightarrow> world \<Rightarrow> error option \<times> world" where
  "middleware J opts req w =
     (case accessToken req of
        None \<Rightarrow>
          (case createSessionObj None req of
             Inl e \<Rightarrow> (Some e, w)
           | Inr s \<Rightarrow> (None, w\<lparr>clientSession := Some s, next_calls := next_calls w + 1\<rparr>))
      | Some token \<Rightarrow>
          (case verify J token (secret opts) of
             Inl err \<Rightarrow> (None, w\<lparr>res := res w @ [SendStatus 403]\<rparr>)
           | Inr payload \<Rightarrow>
               (let tokenData = JSON_parse (jwt_data payload) in
                case get_originIP tokenData of
                  Inl e \<Rightarrow> (Some e, w)
                | Inr originIP \<Rightarrow>
                    if originIP \<noteq> Some (JStr (ip req)) \<and> restrictIPAccess opts = Some True then
                      (None, w\<lparr>res := res w @ [SendStatus 403]\<rparr>)
                    else
                      (case createSessionObj (Some tokenData) req of
                         Inl e \<Rightarrow> (Some e, w)
                       | Inr s \<Rightarrow>
                           (None, w\<lparr>clientSession := Some s,
                                     next_calls := next_calls w + 1\<rparr>)))))"

text \<open>
  What route code does with \<open>req.clientSession\<close>: an assignment, a \<open>delete\<close>, and
  a call of \<open>terminate()\<close>. Reading a property of \<open>undefined\<close> and calling a
  value that is not a function throw a TypeError.
\<close>

definition clientSession_set ::
    "jwt \<Rightarrow> options \<Rightarrow> int \<Rightarrow> path \<Rightarrow> string \<Rightarrow> jsval \<Rightarrow> world \<Rightarrow> error option \<times> world" where
  "clientSession_set J opts now ks key value w =
     (case clientSession w of
        None \<Rightarrow> (Some TypeError, w)
      | Some root \<Rightarrow>
          (case session_set (issueToken J opts now) ks key value root (res w) of
             (e, root', rs) \<Rightarrow> (e, w\<lparr>clientSession := Some root', res := rs\<rparr>)))"

definition clientSession_delete ::
    "jwt \<Rightarrow> options \<Rightarrow> int \<Rightarrow> path \<Rightarrow> string \<Rightarrow> world \<Rightarrow> error option \<times> world" where
  "clientSession_delete J opts now ks key w =
     (case clientSession w of
        None \<Rightarrow> (Some TypeError, w)
      | Some root \<Rightarrow>
          (case session_delete (issueToken J opts now) ks key root (res w) of
             (e, root', rs) \<Rightarrow> (e, w\<lparr>clientSession := Some root', res := rs\<rparr>)))"

definition clientSession_terminate :: "request \<Rightarrow> world \<Rightarrow> error option \<times> world" where
  "clientSession_terminate req w =
     (case clientSession w of
        None \<Rightarrow> (Some TypeError, w)
      | Some root \<Rightarrow>
          (case map_of root ''terminate'' of
             Some JFun \<Rightarrow> terminateCallback req w
           | _ \<Rightarrow> (Some TypeError, w)))"

section \<open>Notions used in the statements\<close>

text \<open>
  The value that the reads \<open>handle.k1. ... .kn\<close> arrive at (\<open>None\<close> for
  \<open>undefined\<close>).
\<close>

fun node_at :: "jsval \<Rightarrow> path \<Rightarrow> jsval option" where
  "node_at v [] = Some v"
| "node_at (JObj w kvs) (k # ks) =
     (case map_of kvs k of None \<Rightarrow> None | Some c \<Rightarrow> node_at c ks)"
| "node_at v (k # ks) = None"

text \<open>A value, and a JSON document, with no \<open>null\<close> at any depth.\<close>

fun no_null :: "jsval \<Rightarrow> bool"
  and no_null_members :: "members \<Rightarrow> bool" where
  "no_null JNull = False"
| "no_null (JObj w kvs) = no_null_members kvs"
| "no_null v = True"
| "no_null_members [] = True"
| "no_null_members ((k, v) # rest) = (no_null v \<and> no_null_members rest)"


text \<open>
  Plain data, as route code assigns it and \<open>JSON.parse\<close> returns it: no Proxy and
  no function inside.
\<close>

fun plain :: "jsval \<Rightarrow> bool"
  and plain_members :: "members \<Rightarrow> bool" where
  "plain (JObj w kvs) = (w = None \<and> plain_members kvs)"
| "plain JFun = False"
| "plain v = True"
| "plain_members [] = True"
| "plain_members ((k, v) # rest) = (plain v \<and> plain_members rest)"

text \<open>
  A consistently tracked subtree at the path \<open>p\<close>: every object in it is wrapped,
  and the path its Proxy captured is the place where it is.
\<close>

fun tracked :: "path \<Rightarrow> jsval \<Rightarrow> bool"
  and tracked_members :: "path \<Rightarrow> members \<Rightarrow> bool" where
  "tracked p (JObj w kvs) = (w = Some p \<and> tracked_members p kvs)"
| "tracked p v = True"
| "tracked_members p [] = True"
| "tracked_members p ((k, v) # rest) = (tracked (p @ [k]) v \<and> tracked_members p rest)"

text \<open>A JSON document in which no object has a key twice.\<close>

fun distinct_keys :: "json \<Rightarrow> bool"
  and distinct_keys_members :: "(string \<times> json) list \<Rightarrow> bool" where
  "distinct_keys (JsObj kvs) = (distinct (map fst kvs) \<and> distinct_keys_members kvs)"
| "distinct_keys j = True"
| "distinct_keys_members [] = True"
| "distinct_keys_members ((k, j) # rest) = (distinct_keys j \<and> distinct_keys_members rest)"


section \<open>Wrapping, unwrapping and serialization\<close>

text \<open>Wrapping changes no serialization, and leaves a function member where it is.\<close>

lemma stringify_proxify:
  "proxify v p = Inr v' \<Longrightarrow> stringify_value v' = stringify_value v"
  "proxify_each kvs p = Inr kvs' \<Longrightarrow> stringify_members kvs' = stringify_members kvs"
proof (induction v p and kvs p arbitrary: v' and kvs' rule: proxify_proxify_each.induct)
  case (1 w kvs path)
  then show ?case by (auto split: sum.splits)
next
  case (4 key v rest path)
  show ?case
  proof (cases "typeof v = ''object''")
    case True
    with "4.prems" obtain v1 rest1 where
      r: "proxify v (path @ [key]) = Inr v1" "proxify_each rest path = Inr rest1"
         "kvs' = (key, v1) # rest1"
      by (auto split: sum.splits)
    have "stringify_value v1 = stringify_value v"
      using "4.IH"(1) True r(1) by blast
    moreover have "stringify_members rest1 = stringify_members rest"
      using "4.IH"(2) True r(1,2) by blast
    ultimately show ?thesis using r(3) by (simp split: option.splits)
  next
    case False
    with "4.prems" obtain rest1 where
      r: "proxify_each rest path = Inr rest1" "kvs' = (key, v) # rest1"
      by (auto split: sum.splits)
    have "stringify_members rest1 = stringify_members rest"
      using "4.IH"(3) False r(1) by blast
    then show ?thesis using r(2) by (simp split: option.splits)
  qed
qed simp_all

lemma proxify_each_keeps_fun:
  "proxify_each kvs p = Inr kvs' \<Longrightarrow> map_of kvs k = Some JFun \<Longrightarrow> map_of kvs' k = Some JFun"
  by (induction kvs arbitrary: kvs') (auto split: sum.splits if_splits)

text \<open>Wrapping fails on \<open>null\<close> only.\<close>

lemma proxify_no_null:
  "no_null v \<Longrightarrow> typeof v = ''object'' \<Longrightarrow> \<exists>v'. proxify v p = Inr v'"
  "no_null_members kvs \<Longrightarrow> \<exists>kvs'. proxify_each kvs p = Inr kvs'"
  by (induction v p and kvs p rule: proxify_proxify_each.induct) auto



text \<open>\<open>JSON.parse\<close> returns plain data.\<close>

lemma plain_update:
  "plain v \<Longrightarrow> plain_members m \<Longrightarrow> plain_members (AList.update k v m)"
  by (induction m) auto

lemma plain_parse:
  "plain (JSON_parse j)"
  "plain_members acc \<Longrightarrow> plain_members (parse_members kvs acc)"
  by (induction j and kvs acc rule: JSON_parse_parse_members.induct)
     (auto simp: plain_update)

text \<open>Unwrapping changes no serialization either.\<close>

lemma stringify_unproxy:
  "stringify_value (fst (unproxy v)) = stringify_value v"
  "stringify_members (fst (unproxy_each kvs)) = stringify_members kvs"
proof (induction v and kvs rule: unproxy_unproxy_each.induct)
  case (1 w kvs)
  then show ?case by (cases "unproxy_each kvs") simp
next
  case (5 k v rest)
  show ?case
  proof (cases "typeof v = ''object''")
    case True
    obtain v1 e1 where u: "unproxy v = (v1, e1)" by (cases "unproxy v")
    obtain r1 e2 where r: "unproxy_each rest = (r1, e2)" by (cases "unproxy_each rest")
    have a: "stringify_value v1 = stringify_value v" using "5.IH"(1) True u by simp
    show ?thesis
    proof (cases e1)
      case None
      have "stringify_members r1 = stringify_members rest"
        using "5.IH"(2) [OF True u [symmetric]] None r by simp
      with True u r None a show ?thesis by (simp split: option.splits)
    next
      case (Some e)
      with True u a show ?thesis by (simp split: option.splits)
    qed
  next
    case False
    obtain r1 e2 where r: "unproxy_each rest = (r1, e2)" by (cases "unproxy_each rest")
    have "stringify_members r1 = stringify_members rest"
      using "5.IH"(3) False r by simp
    with False r show ?thesis by (simp split: option.splits)
  qed
qed simp_all

lemma stringify_update_same:
  "map_of m k = Some v \<Longrightarrow> stringify_value v' = stringify_value v \<Longrightarrow>
   stringify_members (AList.update k v' m) = stringify_members m"
  by (induction m) (auto split: option.splits)

text \<open>
  Serializing a parsed document gives the document back, when no object in it has a key
  twice.
\<close>

lemma update_fresh_key:
  "k \<notin> set (map fst m) \<Longrightarrow> AList.update k v m = m @ [(k, v)]"
  by (induction m) auto

lemma stringify_members_append:
  "stringify_members (m @ n) = stringify_members m @ stringify_members n"
  by (induction m) (auto split: option.splits)

lemma stringify_parse:
  "distinct_keys j \<Longrightarrow> stringify_value (JSON_parse j) = Some j"
  "distinct_keys_members kvs \<Longrightarrow> distinct (map fst kvs) \<Longrightarrow>
   set (map fst kvs) \<inter> set (map fst acc) = {} \<Longrightarrow>
   stringify_members (parse_members kvs acc) = stringify_members acc @ kvs"
proof (induction j and kvs acc rule: JSON_parse_parse_members.induct)
  case (5 kvs)
  then show ?case by simp
next
  case (7 k j rest acc)
  then have k: "k \<notin> set (map fst acc)" by auto
  then have u: "AList.update k (JSON_parse j) acc = acc @ [(k, JSON_parse j)]"
    by (rule update_fresh_key)
  from 7 have j: "stringify_value (JSON_parse j) = Some j" by simp
  from "7.prems" have d: "distinct_keys_members rest" "distinct (map fst rest)"
    "set (map fst rest) \<inter> set (map fst (acc @ [(k, JSON_parse j)])) = {}"
    by auto
  from "7.IH"(2) [OF d(1,2)] d(3) u
  have "stringify_members (parse_members rest (acc @ [(k, JSON_parse j)])) =
        stringify_members (acc @ [(k, JSON_parse j)]) @ rest" by simp
  with u j show ?case by (simp add: stringify_members_append)
qed simp_all

lemma update_key_set:
  "set (map fst (AList.update k v m)) = insert k (set (map fst m))"
  by (induction m) auto

lemma parse_members_keys:
  "set (map fst (parse_members kvs acc)) = set (map fst kvs) \<union> set (map fst acc)"
proof (induction kvs arbitrary: acc)
  case Nil
  then show ?case by simp
next
  case (Cons kv kvs)
  obtain k j where kv: "kv = (k, j)" by (cases kv)
  show ?case
    unfolding kv parse_members.simps Cons.IH update_key_set by auto
qed

section \<open>Construction\<close>

text \<open>
  The members that \<open>DeepProxy_new\<close> returns are those of the Proxy that
  \<open>proxify(target, [])\<close> returns.
\<close>

lemma DeepProxy_new_proxify:
  "proxify (JObj None target) [] =
     (case DeepProxy_new target of Inl e \<Rightarrow> Inl e | Inr kvs \<Rightarrow> Inr (JObj (Some []) kvs))"
  by (simp add: DeepProxy_new_def)

lemma fresh_session:
  "SessionObj_new None a = Inr [(''originIP'', JStr a), (''terminate'', JFun)]"
  by (simp add: SessionObj_new_def DeepProxy_new_def)

text \<open>Every constructed session has the \<open>terminate\<close> closure.\<close>

lemma SessionObj_new_terminate:
  assumes "SessionObj_new payload a = Inr s"
  shows "map_of s ''terminate'' = Some JFun"
proof (cases payload)
  case None
  with assms show ?thesis by (auto simp: fresh_session)
next
  case (Some v)
  with assms obtain w kvs where v: "v = JObj w kvs"
    by (cases v) (simp_all add: SessionObj_new_def)
  with Some assms have "proxify_each (AList.update ''terminate'' JFun kvs) [] = Inr s"
    by (simp add: SessionObj_new_def DeepProxy_new_def)
  moreover have "map_of (AList.update ''terminate'' JFun kvs) ''terminate'' = Some JFun"
    by (simp add: update_conv')
  ultimately show ?thesis by (rule proxify_each_keeps_fun)
qed

text \<open>
  A session rehydrated from a payload serializes as the payload, when the payload has no
  key twice and no \<open>terminate\<close> key.
\<close>

lemma rehydrated_session_serializes_as_payload:
  assumes "SessionObj_new (Some (JSON_parse (JsObj kvs))) a = Inr s"
    and "distinct_keys (JsObj kvs)"
    and "''terminate'' \<notin> set (map fst kvs)"
  shows "JSON_stringify s = JsObj kvs"
proof -
  let ?m = "parse_members kvs []"
  from assms(1) have s: "proxify_each (AList.update ''terminate'' JFun ?m) [] = Inr s"
    by (simp add: SessionObj_new_def DeepProxy_new_def)
  from assms(3) have "''terminate'' \<notin> set (map fst ?m)"
    using parse_members_keys [of kvs "[]"] by simp
  then have "AList.update ''terminate'' JFun ?m = ?m @ [(''terminate'', JFun)]"
    by (rule update_fresh_key)
  then have "stringify_members (AList.update ''terminate'' JFun ?m) = stringify_members ?m"
    by (simp add: stringify_members_append)
  moreover from assms(2) have "stringify_members ?m = kvs"
    using stringify_parse(2) [of kvs "[]"] by simp
  ultimately show ?thesis
    using stringify_proxify(2) [OF s] by (simp add: JSON_stringify_def)
qed

section \<open>Consistent tracking\<close>

lemma tracked_not_object: "typeof v \<noteq> ''object'' \<Longrightarrow> tracked p v"
  by (cases v) simp_all

lemma tracked_proxify:
  "proxify v p = Inr v' \<Longrightarrow> tracked p v'"
  "proxify_each kvs p = Inr kvs' \<Longrightarrow> tracked_members p kvs'"
proof (induction v p and kvs p arbitrary: v' and kvs' rule: proxify_proxify_each.induct)
  case (1 w kvs path)
  then show ?case by (auto split: sum.splits)
next
  case (4 key v rest path)
  show ?case
  proof (cases "typeof v = ''object''")
    case True
    with "4.prems" obtain v1 rest1 where
      r: "proxify v (path @ [key]) = Inr v1" "proxify_each rest path = Inr rest1"
         "kvs' = (key, v1) # rest1"
      by (auto split: sum.splits)
    have "tracked (path @ [key]) v1"
      using "4.IH"(1) True r(1) by blast
    moreover have "tracked_members path rest1"
      using "4.IH"(2) True r(1,2) by blast
    ultimately show ?thesis using r(3) by simp
  next
    case False
    with "4.prems" obtain rest1 where
      r: "proxify_each rest path = Inr rest1" "kvs' = (key, v) # rest1"
      by (auto split: sum.splits)
    have "tracked_members path rest1"
      using "4.IH"(3) False r(1) by blast
    then show ?thesis using r(2) False by (simp add: tracked_not_object)
  qed
qed simp_all

text \<open>Every constructed session is consistently tracked.\<close>

lemma SessionObj_new_tracked:
  "SessionObj_new payload a = Inr s \<Longrightarrow> tracked_members [] s"
  by (auto simp: SessionObj_new_def DeepProxy_new_def tracked_proxify(2)
      split: option.splits jsval.splits)

lemma tracked_members_lookup:
  "tracked_members p kvs \<Longrightarrow> map_of kvs k = Some c \<Longrightarrow> tracked (p @ [k]) c"
  by (induction kvs) (auto split: if_splits)

lemma tracked_members_update:
  "tracked_members p kvs \<Longrightarrow> tracked (p @ [k]) v \<Longrightarrow> tracked_members p (AList.update k v kvs)"
  by (induction kvs) auto

lemma tracked_node_at:
  "tracked p (JObj w kvs) \<Longrightarrow> node_at (JObj w kvs) ks = Some (JObj w' m) \<Longrightarrow>
   w' = Some (p @ ks) \<and> tracked_members (p @ ks) m"
proof (induction ks arbitrary: p w kvs)
  case Nil
  then show ?case by simp
next
  case (Cons k ks)
  then obtain c where c: "map_of kvs k = Some c" "node_at c ks = Some (JObj w' m)"
    by (auto split: option.splits)
  then obtain w1 m1 where cm: "c = JObj w1 m1"
    by (cases ks; cases c) auto
  from Cons.prems(1) have "tracked_members p kvs" by simp
  with c(1) have "tracked (p @ [k]) c"
    by (rule tracked_members_lookup [rotated])
  with Cons.IH [of "p @ [k]" w1 m1] c(2) cm show ?case by simp
qed

text \<open>A set through the handle keeps the tree consistently tracked.\<close>

lemma obj_set_keeps_tracked:
  "tracked p (JObj w kvs) \<Longrightarrow> tracked_members p (fst (obj_set w kvs ks key value))"
proof (induction ks arbitrary: p w kvs)
  case Nil
  then have w: "w = Some p" and t: "tracked_members p kvs" by simp_all
  show ?case
  proof (cases "typeof value = ''object''")
    case True
    show ?thesis
    proof (cases "proxify value (p @ [key])")
      case (Inl e)
      with True w t show ?thesis by (simp add: createHandler_set_def)
    next
      case (Inr v')
      then have "tracked (p @ [key]) v'" by (rule tracked_proxify(1))
      with True w t Inr show ?thesis
        by (simp add: createHandler_set_def tracked_members_update)
    qed
  next
    case False
    with w t show ?thesis
      by (simp add: createHandler_set_def tracked_members_update tracked_not_object)
  qed
next
  case (Cons k ks)
  then have t: "tracked_members p kvs" by simp
  show ?case
  proof (cases "map_of kvs k")
    case None
    with t show ?thesis by simp
  next
    case (Some c)
    with t have tc: "tracked (p @ [k]) c" by (simp add: tracked_members_lookup)
    show ?thesis
    proof (cases c)
      case (JObj w1 m1)
      with tc have w1: "w1 = Some (p @ [k])" by simp
      from Cons.IH [of "p @ [k]" w1 m1] tc JObj
      have "tracked_members (p @ [k]) (fst (obj_set w1 m1 ks key value))" by simp
      with w1 have "tracked (p @ [k]) (JObj w1 (fst (obj_set w1 m1 ks key value)))" by simp
      with t have "tracked_members p
          (AList.update k (JObj w1 (fst (obj_set w1 m1 ks key value))) kvs)"
        by (rule tracked_members_update)
      with Some JObj show ?thesis
        by (cases "obj_set w1 m1 ks key value") simp
    qed (use t Some in simp_all)
  qed
qed

text \<open>
  A set of a value without \<open>null\<close> on a wrapped object stores the value and reports
  the captured path and the key to the handler.
\<close>

lemma obj_set_tracked:
  "node_at (JObj w kvs) ks = Some (JObj (Some p) m) \<Longrightarrow> no_null value \<Longrightarrow>
   \<exists>kvs'. obj_set w kvs ks key value = (kvs', Notify (p @ [key]))"
proof (induction ks arbitrary: w kvs)
  case Nil
  show ?case
  proof (cases "typeof value = ''object''")
    case True
    with Nil(2) obtain v' where "proxify value (p @ [key]) = Inr v'"
      using proxify_no_null(1) by blast
    with True Nil(1) show ?thesis by (simp add: createHandler_set_def)
  next
    case False
    with Nil(1) show ?thesis by (simp add: createHandler_set_def)
  qed
next
  case (Cons k ks)
  then obtain c where c: "map_of kvs k = Some c" "node_at c ks = Some (JObj (Some p) m)"
    by (auto split: option.splits)
  then obtain w' m' where cm: "c = JObj w' m'"
    by (cases ks; cases c) auto
  with c Cons.IH Cons.prems(2) obtain kvs' where
    "obj_set w' m' ks key value = (kvs', Notify (p @ [key]))" by blast
  with c cm show ?case by simp
qed

text \<open>
  On a consistently tracked session, a set of plain data without \<open>null\<close>, at any
  depth, under a first segment that is not reserved, makes exactly one issuance call,
  with the serialization of the root after the store, and leaves the session consistently
  tracked.
\<close>

lemma tracked_set_issues_once:
  assumes "tracked_members [] root"
    and "node_at (JObj (Some []) root) ks = Some (JObj w m)"
    and "plain value" and "no_null value"
    and "ks @ [key] = k0 # rest"
    and "\<not> reservedProp k0"
  shows "\<exists>root'. session_set issue ks key value root w0 =
           (None, root', issue (JSON_stringify root') w0) \<and> tracked_members [] root'"
proof -
  from assms(1) have t: "tracked [] (JObj (Some []) root)" by simp
  from tracked_node_at [OF t assms(2)] have w: "w = Some ks" by simp
  with assms(2) obj_set_tracked [of "Some []" root ks ks m "value" key] assms(4)
  obtain root' where r: "obj_set (Some []) root ks key value = (root', Notify (ks @ [key]))"
    by blast
  from obj_set_keeps_tracked [OF t, of ks key "value"] r have "tracked_members [] root'" by simp
  with r assms(5,6) show ?thesis
    by (simp add: session_set_def SessionObj_set_def)
qed

section \<open>Deleting a key\<close>

text \<open>
  The deleteProperty trap removes no key and changes no serialization, whatever the
  target and the key are.
\<close>

lemma trap_delete_keeps_keys:
  "map fst (fst (createHandler_deleteProperty path target key)) = map fst target"
proof (cases "map_of target key")
  case None
  then show ?thesis by (simp add: createHandler_deleteProperty_def)
next
  case (Some v)
  then have "key \<in> set (map fst target)"
    by (metis domI dom_map_of_conv_image_fst set_map)
  then have "map fst (AList.update key v' target) = map fst target" for v'
    by (simp add: update_keys)
  with Some show ?thesis
    by (simp add: createHandler_deleteProperty_def Let_def split: option.splits prod.splits)
qed

lemma trap_delete_keeps_serialization:
  "stringify_members (fst (createHandler_deleteProperty path target key)) =
   stringify_members target"
proof (cases "map_of target key")
  case None
  then show ?thesis by (simp add: createHandler_deleteProperty_def)
next
  case (Some v)
  obtain v1 e1 where u: "unproxy v = (v1, e1)" by (cases "unproxy v")
  have "stringify_value v1 = stringify_value v" using stringify_unproxy(1) [of v] u by simp
  with Some have "stringify_members (AList.update key v1 target) = stringify_members target"
    by (rule stringify_update_same)
  with Some u show ?thesis
    by (simp add: createHandler_deleteProperty_def Let_def split: option.splits)
qed

text \<open>
  Claim C1: a delete of an existing key that is not reserved removes the key from the
  tree, and the serialization given to the issuance callback no longer has it. The
  deleteProperty trap never removes anything: on the session
  \<open>{originIP: '1.2.3.4', counter: 0}\<close>, \<open>delete session.counter\<close> returns
  normally, the tree still holds \<open>counter\<close>, and the issuance callback receives
  \<open>{"originIP":"1.2.3.4","counter":0}\<close>.
\<close>

theorem delete_leaves_key_in_tree:
  "session_delete issue [] ''counter''
     [(''originIP'', JStr ''1.2.3.4''), (''terminate'', JFun), (''counter'', JNum 0)] w =
   (None,
    [(''originIP'', JStr ''1.2.3.4''), (''terminate'', JFun), (''counter'', JNum 0)],
    issue (JsObj [(''originIP'', JsStr ''1.2.3.4''), (''counter'', JsNum 0)]) w)"
  by (simp add: session_delete_def createHandler_deleteProperty_def
      SessionObj_deleteProperty_def reservedProp_def reservedProps_def JSON_stringify_def)

section \<open>Reserved properties\<close>

text \<open>
  A set of a reserved root key to a value that is not an object throws the error and
  makes no issuance call, after the value has been stored.
\<close>

lemma reserved_set_stores_value:
  assumes "reservedProp k" and "typeof v \<noteq> ''object''"
  shows "session_set issue [] k v root w =
           (Some (Error (''client-session: '' @ k @
              '' is a reserved property and cannot be set.'')),
            AList.update k v root, w)"
  using assms by (simp add: session_set_def createHandler_set_def SessionObj_set_def)

text \<open>
  A delete of a reserved root key throws, makes no issuance call and leaves the
  serialization as it was.
\<close>

lemma reserved_delete_keeps_serialization:
  assumes "reservedProp k"
  shows "\<exists>e root'. session_delete issue [] k root w = (Some e, root', w) \<and>
           JSON_stringify root' = JSON_stringify root"
proof -
  obtain root' sg where t: "createHandler_deleteProperty [] root k = (root', sg)"
    by (cases "createHandler_deleteProperty [] root k")
  have ser: "stringify_members root' = stringify_members root"
    using trap_delete_keeps_serialization [of "[]" root k] t by simp
  have "sg = Notify [k] \<or> (\<exists>e. sg = Threw e)"
    using t
    by (auto simp: createHandler_deleteProperty_def Let_def
        split: option.splits prod.splits if_splits)
  with t ser assms show ?thesis
    by (auto simp: session_delete_def SessionObj_deleteProperty_def JSON_stringify_def)
qed

text \<open>
  Claim C2: a set or a delete whose first path segment is \<open>originIP\<close> or
  \<open>terminate\<close> fails with the reserved-property error, makes no issuance call and
  leaves the tree as it was. The set trap stores the value before the handler checks
  the name: on a fresh session of origin \<open>1.2.3.4\<close>,
  \<open>session.originIP = '6.6.6.6'\<close> throws the error and makes no issuance call, but
  the tree now holds \<open>originIP = '6.6.6.6'\<close>.
\<close>

theorem reserved_set_is_stored:
  "session_set issue [] ''originIP'' (JStr ''6.6.6.6'')
     [(''originIP'', JStr ''1.2.3.4''), (''terminate'', JFun)] w =
   (Some (Error ''client-session: originIP is a reserved property and cannot be set.''),
    [(''originIP'', JStr ''6.6.6.6''), (''terminate'', JFun)], w)"
  by (simp add: session_set_def createHandler_set_def
      SessionObj_set_def reservedProp_def reservedProps_def)

section \<open>Issuance on mutation\<close>

text \<open>
  Claim C3: every accepted set or delete, at any depth, of a key that is not reserved
  makes exactly one issuance call, with the serialization of the whole current root
  (without \<open>terminate\<close>, with \<open>originIP\<close>) that reflects this mutation and the
  earlier ones. For a set on a consistently tracked session this is
  \<open>tracked_set_issues_once\<close>. A delete is accepted and issues once, but the tree it
  issues still has the key, and the subtree under the key is no longer tracked: on the
  session \<open>{originIP: '1.2.3.4', a: {b: 0}}\<close>, \<open>delete session.a\<close> issues
  \<open>{"originIP":"1.2.3.4","a":{"b":0}}\<close>, and the accepted
  \<open>session.a.b = 1\<close> that follows makes no issuance call at all.
\<close>

theorem delete_issues_stale_tree:
  "session_delete issue [] ''a''
     [(''originIP'', JStr ''1.2.3.4''), (''terminate'', JFun),
      (''a'', JObj (Some [''a'']) [(''b'', JNum 0)])] w =
   (None,
    [(''originIP'', JStr ''1.2.3.4''), (''terminate'', JFun), (''a'', JObj None [(''b'', JNum 0)])],
    issue (JsObj [(''originIP'', JsStr ''1.2.3.4''), (''a'', JsObj [(''b'', JsNum 0)])]) w) \<and>
   session_set issue [''a''] ''b'' (JNum 1)
     [(''originIP'', JStr ''1.2.3.4''), (''terminate'', JFun), (''a'', JObj None [(''b'', JNum 0)])] w =
   (None,
    [(''originIP'', JStr ''1.2.3.4''), (''terminate'', JFun), (''a'', JObj None [(''b'', JNum 1)])],
    w)"
  by (simp add: session_delete_def session_set_def createHandler_deleteProperty_def
      SessionObj_deleteProperty_def reservedProp_def reservedProps_def JSON_stringify_def)

section \<open>Issuing a token\<close>

text \<open>
  Claim C4: the expiry of the \<open>accessToken\<close> cookie is the current time plus
  \<open>expiresIn\<close> taken as seconds, the duration that the \<open>exp\<close> field of the
  token uses. \<open>updateCookie\<close> adds \<open>expiresIn\<close> to \<open>Date.now()\<close>, which is
  in milliseconds: with \<open>expiresIn = 10\<close> at the instant 1700000000000 the cookie
  expires at 1700000000010, 10 milliseconds later, while the token has
  \<open>exp = 1700000010\<close>, 10 seconds later.
\<close>

theorem cookie_expiry_adds_seconds_to_milliseconds:
  "issueToken J \<lparr>secret = ''s'', expiresIn = 10, restrictIPAccess = None\<rparr> 1700000000000 p [] =
   [Cookie ''accessToken'' (sign J \<lparr>jwt_exp = 1700000010, jwt_data = p\<rparr> ''s'')
      \<lparr>expires = 1700000000010, httpOnly = True\<rparr>]"
  by (simp add: issueToken_def updateCookie_def)

section \<open>The middleware\<close>

text \<open>
  Claim C5: when the request carries a token and its verification gives any error, the
  middleware answers 403 and stops: no session is constructed (\<open>req.clientSession\<close>
  is as it was), there is no fallback to an anonymous session, and \<open>next()\<close> is
  not called.
\<close>

theorem middleware_denies_on_token_error:
  assumes "accessToken req = Some token"
    and "verify J token (secret opts) = Inl err"
  shows "middleware J opts req w = (None, w\<lparr>res := res w @ [SendStatus 403]\<rparr>)"
  using assms by (simp add: middleware_def)

theorem middleware_denies_on_token_error_witness:
  "middleware \<lparr>sign = (\<lambda>p k. []), verify = (\<lambda>t k. Inl InvalidSignature)\<rparr>
     \<lparr>secret = ''s'', expiresIn = 10, restrictIPAccess = None\<rparr>
     \<lparr>accessToken = Some ''forged'', ip = ''1.2.3.4''\<rparr>
     \<lparr>clientSession = None, res = [], next_calls = 0\<rparr> =
   (None, \<lparr>clientSession = None, res = [SendStatus 403], next_calls = 0\<rparr>)"
  using middleware_denies_on_token_error
    [of "\<lparr>accessToken = Some ''forged'', ip = ''1.2.3.4''\<rparr>" "''forged''"
        "\<lparr>sign = (\<lambda>p k. []), verify = (\<lambda>t k. Inl InvalidSignature)\<rparr>"
        "\<lparr>secret = ''s'', expiresIn = 10, restrictIPAccess = None\<rparr>" InvalidSignature
        "\<lparr>clientSession = None, res = [], next_calls = 0\<rparr>"]
  by simp



section \<open>Termination\<close>

text \<open>
  Claim C7: calling \<open>terminate()\<close> on the current session clears the
  \<open>accessToken\<close> cookie and puts a freshly constructed anonymous session in
  \<open>req.clientSession\<close>, whose serialization is \<open>{originIP: req.ip}\<close>; the handle
  is never left empty. The session is any one whose \<open>terminate\<close> member is the
  closure that the constructor put there.
\<close>

theorem terminate_resets_session:
  assumes "clientSession w = Some root"
    and "map_of root ''terminate'' = Some JFun"
  shows "clientSession_terminate req w =
           (None, w\<lparr>res := res w @ [ClearCookie ''accessToken''],
                     clientSession := Some [(''originIP'', JStr (ip req)), (''terminate'', JFun)]\<rparr>)
         \<and> createSessionObj None req = Inr [(''originIP'', JStr (ip req)), (''terminate'', JFun)]
         \<and> JSON_stringify [(''originIP'', JStr (ip req)), (''terminate'', JFun)] =
             JsObj [(''originIP'', JsStr (ip req))]"
  using assms
  by (simp add: clientSession_terminate_def terminateCallback_def createSessionObj_def
      fresh_session JSON_stringify_def)

theorem terminate_resets_session_witness:
  "clientSession_terminate \<lparr>accessToken = None, ip = ''1.2.3.4''\<rparr>
     \<lparr>clientSession = Some [(''originIP'', JStr ''1.2.3.4''), (''terminate'', JFun),
                             (''counter'', JNum 5)],
      res = [], next_calls = 1\<rparr> =
   (None, \<lparr>clientSession = Some [(''originIP'', JStr ''1.2.3.4''), (''terminate'', JFun)],
           res = [ClearCookie ''accessToken''], next_calls = 1\<rparr>)"
  using terminate_resets_session
    [of "\<lparr>clientSession = Some [(''originIP'', JStr ''1.2.3.4''), (''terminate'', JFun),
                             (''counter'', JNum 5)], res = [], next_calls = 1\<rparr>"
        "[(''originIP'', JStr ''1.2.3.4''), (''terminate'', JFun), (''counter'', JNum 5)]"
        "\<lparr>accessToken = None, ip = ''1.2.3.4''\<rparr>"]
  by simp

section \<open>No issuance at construction\<close>



section \<open>The reserved-property guard\<close>


text \<open>
  Two sets through the handle: \<open>session.originIP.x = 2\<close>, on a session rehydrated
  with an object under \<open>originIP\<close>, is rejected; \<open>session.a.originIP = 1\<close> is
  accepted and issues.
\<close>

lemma reserved_guard_examples:
  "session_set issue [''originIP''] ''x'' (JNum 2)
     [(''originIP'', JObj (Some [''originIP'']) [(''x'', JNum 1)]), (''terminate'', JFun)] w =
   (Some (Error ''client-session: originIP is a reserved property and cannot be set.''),
    [(''originIP'', JObj (Some [''originIP'']) [(''x'', JNum 2)]), (''terminate'', JFun)], w) \<and>
   session_set issue [''a''] ''originIP'' (JNum 1)
     [(''originIP'', JStr ''1.2.3.4''), (''terminate'', JFun), (''a'', JObj (Some [''a'']) [])] w =
   (None,
    [(''originIP'', JStr ''1.2.3.4''), (''terminate'', JFun),
     (''a'', JObj (Some [''a'']) [(''originIP'', JNum 1)])],
    issue (JsObj [(''originIP'', JsStr ''1.2.3.4''), (''a'', JsObj [(''originIP'', JsNum 1)])]) w)"
  by (simp add: session_set_def createHandler_set_def SessionObj_set_def reservedProp_def
      reservedProps_def JSON_stringify_def)

section \<open>Setting a key to null\<close>

lemma obj_set_null:
  "node_at (JObj w kvs) ks = Some (JObj (Some p) kvs') \<Longrightarrow>
   obj_set w kvs ks key JNull = (kvs, Threw TypeError)"
proof (induction ks arbitrary: w kvs)
  case Nil
  then show ?case by (simp add: createHandler_set_def)
next
  case (Cons k ks)
  then obtain c where c: "map_of kvs k = Some c" "node_at c ks = Some (JObj (Some p) kvs')"
    by (auto split: option.splits)
  then obtain w' m where cm: "c = JObj w' m"
    by (cases ks; cases c) auto
  with c Cons.IH have "obj_set w' m ks key JNull = (m, Threw TypeError)" by simp
  with c cm show ?case by (simp add: update_triv)
qed

text \<open>
  Claim C10: setting a key to \<open>null\<close> through a tracked object (the root, or a
  wrapped object at any depth) does not succeed: \<open>typeof null\<close> is
  \<open>'object'\<close>, the trap tries to wrap it, \<open>new Proxy(null, ...)\<close> throws a
  TypeError, nothing is stored and no issuance call is made.
\<close>

theorem set_null_throws:
  assumes "node_at (JObj (Some []) root) ks = Some (JObj (Some p) kvs)"
  shows "session_set issue ks key JNull root w = (Some TypeError, root, w)"
  using obj_set_null [OF assms] by (simp add: session_set_def)

theorem set_null_throws_witness:
  "session_set (\<lambda>p l. l @ [p]) [] ''x'' JNull
     [(''originIP'', JStr ''1.2.3.4''), (''terminate'', JFun),
      (''a'', JObj (Some [''a'']) [(''b'', JNum 0)])] [] =
     (Some TypeError,
      [(''originIP'', JStr ''1.2.3.4''), (''terminate'', JFun),
       (''a'', JObj (Some [''a'']) [(''b'', JNum 0)])], []) \<and>
   session_set (\<lambda>p l. l @ [p]) [''a''] ''b'' JNull
     [(''originIP'', JStr ''1.2.3.4''), (''terminate'', JFun),
      (''a'', JObj (Some [''a'']) [(''b'', JNum 0)])] [] =
     (Some TypeError,
      [(''originIP'', JStr ''1.2.3.4''), (''terminate'', JFun),
       (''a'', JObj (Some [''a'']) [(''b'', JNum 0)])], [])"
  using
    set_null_throws [of "[(''originIP'', JStr ''1.2.3.4''), (''terminate'', JFun),
       (''a'', JObj (Some [''a'']) [(''b'', JNum 0)])]" "[]" "[]"
       "[(''originIP'', JStr ''1.2.3.4''), (''terminate'', JFun),
       (''a'', JObj (Some [''a'']) [(''b'', JNum 0)])]"
       "\<lambda>p l. l @ [p]" "''x''" "[]"]
    set_null_throws [of "[(''originIP'', JStr ''1.2.3.4''), (''terminate'', JFun),
       (''a'', JObj (Some [''a'']) [(''b'', JNum 0)])]" "[''a'']" "[''a'']" "[(''b'', JNum 0)]"
       "\<lambda>p l. l @ [p]" "''b''" "[]"]
  by simp

section \<open>A request from start to issuance\<close>

text \<open>
  With \<open>secret = 's'\<close> and \<open>expiresIn = 10\<close>: a request without a token from
  \<open>1.2.3.4\<close> gets a fresh session and no cookie; \<open>session.counter = 0\<close> then
  issues a token with the payload \<open>{"originIP":"1.2.3.4","counter":0}\<close>.
\<close>

lemma counter_scenario:
  "middleware J \<lparr>secret = ''s'', expiresIn = 10, restrictIPAccess = None\<rparr>
     \<lparr>accessToken = None, ip = ''1.2.3.4''\<rparr>
     \<lparr>clientSession = None, res = [], next_calls = 0\<rparr> =
   (None, \<lparr>clientSession = Some [(''originIP'', JStr ''1.2.3.4''), (''terminate'', JFun)],
           res = [], next_calls = 1\<rparr>) \<and>
   clientSession_set J \<lparr>secret = ''s'', expiresIn = 10, restrictIPAccess = None\<rparr>
     1700000000000 [] ''counter'' (JNum 0)
     \<lparr>clientSession = Some [(''originIP'', JStr ''1.2.3.4''), (''terminate'', JFun)],
      res = [], next_calls = 1\<rparr> =
   (None, \<lparr>clientSession = Some [(''originIP'', JStr ''1.2.3.4''), (''terminate'', JFun),
                                   (''counter'', JNum 0)],
           res = [Cookie ''accessToken''
                    (sign J \<lparr>jwt_exp = 1700000010,
                              jwt_data = JsObj [(''originIP'', JsStr ''1.2.3.4''),
                                                (''counter'', JsNum 0)]\<rparr> ''s'')
                    \<lparr>expires = 1700000000010, httpOnly = True\<rparr>],
           next_calls = 1\<rparr>)"
  by (simp add: middleware_def createSessionObj_def fresh_session clientSession_set_def
      session_set_def createHandler_set_def SessionObj_set_def reservedProp_def
      reservedProps_def JSON_stringify_def issueToken_def updateCookie_def)

end
